theory Spec2Isabelle
  imports Complex_Main "HOL-Library.Multiset" "HOL-Library.Log_Nat"
begin

section \<open>The book catalogue service (book\_mgt\_api.py)\<close>

text \<open>
  The service keeps two tables, \<open>books\<close> and \<open>reviews\<close>, in a relational store and
  exposes eight request handlers. Each handler is modelled as a function of the
  credentials, its arguments and the store; a handler that writes returns the new store
  next to its result. An exception raised by a handler is the \<open>Inl\<close> of its result.

  What the handlers call but the Python file does not spell out is modelled as follows.
  \<^item> The password hash (passlib, bcrypt): verifying a password of more than 4096
    characters, or one that contains a NUL character, raises; any other password verifies
    exactly against the hash made from it.
  \<^item> The store is PostgreSQL, reached through asyncpg. An \<open>Integer\<close> column, and a
    value compared with one, takes a 32-bit signed integer, \<open>OFFSET\<close> and \<open>LIMIT\<close> a
    64-bit one, and a text column any text without NUL; anything else is refused when
    the statement is bound, before it runs. A string stands for text that encodes as
    UTF-8.
  \<^item> The store assigns primary keys from one 32-bit sequence per table, starting at 1.
    A sequence value handed out to an insert that the store then rejects by a constraint
    is not handed out again.
  \<^item> No query of the file carries an \<open>order_by\<close>. The order in which the store yields the
    rows of such a query is the store's choice (a row that was rewritten, or a row put
    where a deleted one was, changes it); it is a parameter \<open>scan\<close> of the handlers that
    list rows, constrained only by \<open>engine_order\<close> below.
  \<^item> A Python float is a finite double, given by its value as a rational number.
  The handlers run one at a time, each as one step of the store.
\<close>

subsection \<open>Errors\<close>

datatype error =
    HTTPException int string  \<comment> \<open>status code and detail, raised by the handlers\<close>
  | ValidationError            \<comment> \<open>pydantic rejects the payload\<close>
  | IntegrityError             \<comment> \<open>the store rejects a row: check or foreign-key constraint\<close>
  | DBAPIError                 \<comment> \<open>the store rejects a statement\<close>
  | MultipleResultsFound       \<comment> \<open>\<open>scalar_one_or_none\<close> on more than one row\<close>
  | PasswordValueError         \<comment> \<open>passlib refuses the password\<close>
  | TypeError
  | ZeroDivisionError
  | OverflowError

definition Unauthorized :: error where
  "Unauthorized = HTTPException 401 ''Incorrect username or password''"

definition Book_not_found :: error where
  "Book_not_found = HTTPException 404 ''Book not found''"

definition No_reviews_found :: error where
  "No_reviews_found = HTTPException 404 ''No reviews found for this book''"


subsection \<open>Authentication\<close>

record HTTPBasicCredentials =
  username :: string
  password :: string

datatype password_hash = Bcrypt string

definition get_password_hash :: "string \<Rightarrow> password_hash" where
  "get_password_hash pw = Bcrypt pw"

definition NUL :: char where
  "NUL = CHR 0x00"

fun verify_password :: "string \<Rightarrow> password_hash \<Rightarrow> error + bool" where
  "verify_password plain_password (Bcrypt pw) =
     (if 4096 < length plain_password \<or> NUL \<in> set plain_password
      then Inl PasswordValueError
      else Inr (plain_password = pw))"

text \<open>
  \<open>secrets.compare_digest\<close> is equality in constant time, and raises on a string with a
  character that is not ASCII. (HTTP Basic authentication decodes the credentials as
  ASCII, so a request never brings such a string.)
\<close>

definition is_ascii :: "string \<Rightarrow> bool" where
  "is_ascii s = list_all (\<lambda>c. of_char c < (128 :: nat)) s"

definition compare_digest :: "string \<Rightarrow> string \<Rightarrow> error + bool" where
  "compare_digest a b = (if \<not> (is_ascii a \<and> is_ascii b) then Inl TypeError else Inr (a = b))"

definition authenticate_user :: "HTTPBasicCredentials \<Rightarrow> error + bool" where
  "authenticate_user credentials =
     (case compare_digest (username credentials) ''admin'' of
        Inl e \<Rightarrow> Inl e
      | Inr correct_username \<Rightarrow>
          (case verify_password (password credentials) (get_password_hash ''password'') of
             Inl e \<Rightarrow> Inl e
           | Inr correct_password \<Rightarrow>
               if \<not> (correct_username \<and> correct_password) then Inl Unauthorized
               else Inr True))"

text \<open>The error a wrong identity/secret pair ends in.\<close>

definition authentication_error :: "HTTPBasicCredentials \<Rightarrow> error" where
  "authentication_error credentials =
     (if \<not> is_ascii (username credentials) then TypeError
      else if 4096 < length (password credentials) \<or> NUL \<in> set (password credentials)
      then PasswordValueError
      else Unauthorized)"

subsection \<open>Tables and payloads\<close>

text \<open>
  A row of \<open>books\<close>: \<open>title\<close> and \<open>author\<close> are \<open>nullable=False\<close>, the other columns may be
  NULL (\<open>None\<close>). A row of \<open>reviews\<close>: only \<open>review_text\<close> may be NULL.
\<close>

record Book =
  Book_id :: int
  Book_title :: string
  Book_author :: string
  Book_genre :: "string option"
  Book_year_published :: "int option"
  Book_summary :: "string option"

record Review =
  Review_id :: int
  Review_book_id :: int
  Review_user_id :: int
  Review_review_text :: "string option"
  Review_rating :: int

record BookCreate =
  title :: string
  author :: string
  genre :: "string option"
  year_published :: "int option"
  summary :: "string option"

record ReviewCreate =
  user_id :: int
  review_text :: string
  rating :: int

text \<open>
  A review payload as it arrives, before pydantic has seen it: each field is absent
  (\<open>None\<close>) or present with a value of the field's type. \<open>ReviewCreate\<close> declares its
  three fields without a default, so each of them is required.
\<close>

record ReviewPayload =
  payload_user_id :: "int option"
  payload_review_text :: "string option"
  payload_rating :: "int option"

definition ReviewCreate_validate :: "ReviewPayload \<Rightarrow> error + ReviewCreate" where
  "ReviewCreate_validate p =
     (case (payload_user_id p, payload_review_text p, payload_rating p) of
        (Some u, Some t, Some r) \<Rightarrow> Inr \<lparr>user_id = u, review_text = t, rating = r\<rparr>
      | _ \<Rightarrow> Inl ValidationError)"

subsection \<open>The store\<close>

record store =
  books :: "Book list"
  reviews :: "Review list"
  books_id_seq :: int
  reviews_id_seq :: int

definition init_db :: store where
  "init_db = \<lparr>books = [], reviews = [], books_id_seq = 1, reviews_id_seq = 1\<rparr>"

text \<open>
  The rows of a query without \<open>order_by\<close> come in an order the store chooses: any
  arrangement of the same rows.
\<close>

definition engine_order :: "('r list \<Rightarrow> 'r list) \<Rightarrow> bool" where
  "engine_order scan = (\<forall>rows. mset (scan rows) = mset rows)"

definition scalar_one_or_none :: "'r list \<Rightarrow> error + 'r option" where
  "scalar_one_or_none rows =
     (case rows of
        [] \<Rightarrow> Inr None
      | [r] \<Rightarrow> Inr (Some r)
      | _ \<Rightarrow> Inl MultipleResultsFound)"

text \<open>What the store takes as a value: the bounds of asyncpg's integer codecs, no NUL in text.\<close>

definition int32 :: "int \<Rightarrow> bool" where
  "int32 n = (- 2147483648 \<le> n \<and> n \<le> 2147483647)"

definition int64 :: "int \<Rightarrow> bool" where
  "int64 n = (- 9223372036854775808 \<le> n \<and> n \<le> 9223372036854775807)"

definition text_ok :: "string \<Rightarrow> bool" where
  "text_ok s = (NUL \<notin> set s)"

definition BookCreate_storable :: "BookCreate \<Rightarrow> bool" where
  "BookCreate_storable book =
     (text_ok (title book) \<and> text_ok (author book)
      \<and> (case genre book of None \<Rightarrow> True | Some g \<Rightarrow> text_ok g)
      \<and> (case year_published book of None \<Rightarrow> True | Some y \<Rightarrow> int32 y)
      \<and> (case summary book of None \<Rightarrow> True | Some s \<Rightarrow> text_ok s))"

definition ReviewCreate_storable :: "ReviewCreate \<Rightarrow> bool" where
  "ReviewCreate_storable review =
     (int32 (user_id review) \<and> text_ok (review_text review) \<and> int32 (rating review))"

text \<open>\<open>select(Book).where(Book.id == id)\<close> and \<open>scalar_one_or_none\<close>.\<close>

definition select_book :: "int \<Rightarrow> store \<Rightarrow> error + Book option" where
  "select_book i db =
     (if \<not> int32 i then Inl DBAPIError
      else scalar_one_or_none (filter (\<lambda>b. Book_id b = i) (books db)))"

text \<open>
  \<open>db.add(Book(...)); commit; refresh\<close>: the store assigns the id. A payload the store
  does not take, or a sequence that has run out, fails the commit and leaves the store as
  it was.
\<close>

definition insert_book :: "BookCreate \<Rightarrow> store \<Rightarrow> (error + Book) \<times> store" where
  "insert_book book db =
     (let db_book = \<lparr>Book_id = books_id_seq db, Book_title = title book,
                     Book_author = author book, Book_genre = genre book,
                     Book_year_published = year_published book,
                     Book_summary = summary book\<rparr>
      in if \<not> BookCreate_storable book then (Inl DBAPIError, db)
         else if 2147483647 < books_id_seq db then (Inl DBAPIError, db)
         else (Inr db_book,
               db\<lparr>books := books db @ [db_book], books_id_seq := books_id_seq db + 1\<rparr>))"

text \<open>
  The insert into \<open>reviews\<close>. Values the store does not take are refused before the
  insert runs, and so is an insert when the sequence has run out. Then come the two
  constraints the table declares, \<open>CheckConstraint('rating >= 1 AND rating <= 5')\<close> and
  \<open>ForeignKey('books.id')\<close>; an insert they reject has used a sequence value. Every
  rejected insert leaves both tables as they were.
\<close>

definition insert_review :: "int \<Rightarrow> ReviewCreate \<Rightarrow> store \<Rightarrow> (error + Review) \<times> store" where
  "insert_review i review db =
     (let db_review = \<lparr>Review_id = reviews_id_seq db, Review_book_id = i,
                       Review_user_id = user_id review,
                       Review_review_text = Some (review_text review),
                       Review_rating = rating review\<rparr>;
          db1 = db\<lparr>reviews_id_seq := reviews_id_seq db + 1\<rparr>
      in if \<not> (int32 i \<and> ReviewCreate_storable review) then (Inl DBAPIError, db)
         else if 2147483647 < reviews_id_seq db then (Inl DBAPIError, db)
         else if \<not> (rating review \<ge> 1 \<and> rating review \<le> 5) then (Inl IntegrityError, db1)
         else if i \<notin> Book_id ` set (books db) then (Inl IntegrityError, db1)
         else (Inr db_review, db1\<lparr>reviews := reviews db @ [db_review]\<rparr>))"

text \<open>
  \<open>setattr(db_book, key, value)\<close> for every key of \<open>book.dict()\<close>: the five payload
  fields, a \<open>None\<close> included; \<open>id\<close> is not among them. The commit then rewrites the
  row, or fails on a payload the store does not take.
\<close>

definition setattrs :: "Book \<Rightarrow> BookCreate \<Rightarrow> Book" where
  "setattrs db_book book =
     db_book\<lparr>Book_title := title book, Book_author := author book, Book_genre := genre book,
             Book_year_published := year_published book, Book_summary := summary book\<rparr>"

definition update_row :: "int \<Rightarrow> BookCreate \<Rightarrow> store \<Rightarrow> store" where
  "update_row i book db =
     db\<lparr>books := map (\<lambda>b. if Book_id b = i then setattrs b book else b) (books db)\<rparr>"

definition commit_update :: "Book \<Rightarrow> BookCreate \<Rightarrow> store \<Rightarrow> (error + Book) \<times> store" where
  "commit_update db_book book db =
     (if \<not> BookCreate_storable book then (Inl DBAPIError, db)
      else (Inr (setattrs db_book book), update_row (Book_id db_book) book db))"

text \<open>
  \<open>db.delete(db_book)\<close>: the relationship is declared \<open>cascade="all, delete-orphan"\<close> and
  the foreign key \<open>ondelete='CASCADE'\<close>, so the reviews of the book go with it.
\<close>

definition delete_row :: "int \<Rightarrow> store \<Rightarrow> store" where
  "delete_row i db =
     db\<lparr>books := filter (\<lambda>b. Book_id b \<noteq> i) (books db),
        reviews := filter (\<lambda>r. Review_book_id r \<noteq> i) (reviews db)\<rparr>"

subsection \<open>The handlers\<close>

definition create_book ::
  "HTTPBasicCredentials \<Rightarrow> BookCreate \<Rightarrow> store \<Rightarrow> (error + Book) \<times> store" where
  "create_book credentials book db =
     (case authenticate_user credentials of
        Inl e \<Rightarrow> (Inl e, db)
      | Inr _ \<Rightarrow> insert_book book db)"

text \<open>
  \<open>select(Book).offset(skip).limit(limit)\<close>, with \<open>skip = 0\<close> and \<open>limit = 10\<close> when the
  caller gives none. The store rejects a negative \<open>OFFSET\<close> or \<open>LIMIT\<close>, and one that is
  not a 64-bit integer.
\<close>

definition read_books ::
  "(Book list \<Rightarrow> Book list) \<Rightarrow> HTTPBasicCredentials \<Rightarrow> int option \<Rightarrow> int option \<Rightarrow> store
     \<Rightarrow> error + Book list" where
  "read_books scan credentials skip_arg limit_arg db =
     (let skip = (case skip_arg of None \<Rightarrow> 0 | Some k \<Rightarrow> k);
          limit = (case limit_arg of None \<Rightarrow> 10 | Some l \<Rightarrow> l)
      in case authenticate_user credentials of
           Inl e \<Rightarrow> Inl e
         | Inr _ \<Rightarrow>
             if skip < 0 \<or> limit < 0 \<or> \<not> int64 skip \<or> \<not> int64 limit then Inl DBAPIError
             else Inr (take (nat limit) (drop (nat skip) (scan (books db)))))"

definition read_book :: "HTTPBasicCredentials \<Rightarrow> int \<Rightarrow> store \<Rightarrow> error + Book" where
  "read_book credentials i db =
     (case authenticate_user credentials of
        Inl e \<Rightarrow> Inl e
      | Inr _ \<Rightarrow>
          (case select_book i db of
             Inl e \<Rightarrow> Inl e
           | Inr None \<Rightarrow> Inl Book_not_found
           | Inr (Some book) \<Rightarrow> Inr book))"

definition update_book ::
  "HTTPBasicCredentials \<Rightarrow> int \<Rightarrow> BookCreate \<Rightarrow> store \<Rightarrow> (error + Book) \<times> store" where
  "update_book credentials i book db =
     (case authenticate_user credentials of
        Inl e \<Rightarrow> (Inl e, db)
      | Inr _ \<Rightarrow>
          (case select_book i db of
             Inl e \<Rightarrow> (Inl e, db)
           | Inr None \<Rightarrow> (Inl Book_not_found, db)
           | Inr (Some db_book) \<Rightarrow> commit_update db_book book db))"

text \<open>The handler returns \<open>{"detail": "Book deleted"}\<close>, here the detail.\<close>

definition delete_book ::
  "HTTPBasicCredentials \<Rightarrow> int \<Rightarrow> store \<Rightarrow> (error + string) \<times> store" where
  "delete_book credentials i db =
     (case authenticate_user credentials of
        Inl e \<Rightarrow> (Inl e, db)
      | Inr _ \<Rightarrow>
          (case select_book i db of
             Inl e \<Rightarrow> (Inl e, db)
           | Inr None \<Rightarrow> (Inl Book_not_found, db)
           | Inr (Some db_book) \<Rightarrow> (Inr ''Book deleted'', delete_row (Book_id db_book) db)))"

definition create_review ::
  "HTTPBasicCredentials \<Rightarrow> int \<Rightarrow> ReviewCreate \<Rightarrow> store \<Rightarrow> (error + Review) \<times> store" where
  "create_review credentials i review db =
     (case authenticate_user credentials of
        Inl e \<Rightarrow> (Inl e, db)
      | Inr _ \<Rightarrow>
          (case select_book i db of
             Inl e \<Rightarrow> (Inl e, db)
           | Inr None \<Rightarrow> (Inl Book_not_found, db)
           | Inr (Some book) \<Rightarrow> insert_review i review db))"

text \<open>\<open>select(Review).where(Review.book_id == id)\<close> and \<open>scalars().all()\<close>.\<close>

definition select_reviews ::
  "(Review list \<Rightarrow> Review list) \<Rightarrow> int \<Rightarrow> store \<Rightarrow> error + Review list" where
  "select_reviews scan i db =
     (if \<not> int32 i then Inl DBAPIError
      else Inr (filter (\<lambda>r. Review_book_id r = i) (scan (reviews db))))"

definition read_reviews ::
  "(Review list \<Rightarrow> Review list) \<Rightarrow> HTTPBasicCredentials \<Rightarrow> int \<Rightarrow> store \<Rightarrow> error + Review list" where
  "read_reviews scan credentials i db =
     (case authenticate_user credentials of
        Inl e \<Rightarrow> Inl e
      | Inr _ \<Rightarrow> select_reviews scan i db)"

text \<open>
  Python's \<open>sum\<close> adds from 0, left to right. \<open>/\<close> on integers raises on a zero divisor
  and otherwise gives the double nearest to the quotient, a tie going to the even
  mantissa, or raises when that is beyond the largest double. \<open>" ".join\<close> raises on an
  item that is not a string.
\<close>

definition py_sum :: "int list \<Rightarrow> int" where
  "py_sum xs = foldl (+) 0 xs"

type_synonym double = rat

definition round_half_even :: "rat \<Rightarrow> int" where
  "round_half_even x =
     (let n = \<lfloor>x\<rfloor>; r = x - of_int n
      in if r < 1 / 2 then n else if 1 / 2 < r then n + 1 else if even n then n else n + 1)"

text \<open>For \<open>n, d > 0\<close>, the \<open>e\<close> with \<open>2 ^ e \<le> n / d < 2 ^ (e + 1)\<close>.\<close>

definition floor_log2 :: "int \<Rightarrow> int \<Rightarrow> int" where
  "floor_log2 n d =
     (let k = bitlen n - bitlen d
      in if (2 :: rat) powi k \<le> of_int n / of_int d then k else k - 1)"

text \<open>
  The double nearest to \<open>n / d\<close>, for \<open>n \<ge> 0\<close> and \<open>d > 0\<close>: 53 bits of mantissa, the
  smallest exponent that of the subnormal numbers, and no double from \<open>2 ^ 1024\<close> on.
\<close>

definition double_overflow :: rat where
  "double_overflow = 2 ^ 1024"

definition double_of_ratio :: "int \<Rightarrow> int \<Rightarrow> error + double" where
  "double_of_ratio n d =
     (if n = 0 then Inr 0
      else
        (let e = floor_log2 n d;
             u = max (e - 52) (- 1074);
             m = round_half_even (of_int n / of_int d / 2 powi u);
             v = of_int m * 2 powi u
         in if double_overflow \<le> v then Inl OverflowError else Inr v))"

definition py_truediv :: "int \<Rightarrow> int \<Rightarrow> error + double" where
  "py_truediv a b =
     (if b = 0 then Inl ZeroDivisionError
      else
        (case double_of_ratio \<bar>a\<bar> \<bar>b\<bar> of
           Inl e \<Rightarrow> Inl e
         | Inr v \<Rightarrow> Inr (of_int (sgn a * sgn b) * v)))"

fun join :: "string \<Rightarrow> string list \<Rightarrow> string" where
  "join sep [] = []"
| "join sep [x] = x"
| "join sep (x # y # ys) = x @ sep @ join sep (y # ys)"

definition str_join :: "string \<Rightarrow> string option list \<Rightarrow> error + string" where
  "str_join sep items =
     (case those items of None \<Rightarrow> Inl TypeError | Some strs \<Rightarrow> Inr (join sep strs))"

record BookSummary =
  average_rating :: double
  review_summary :: string

definition book_summary ::
  "(Review list \<Rightarrow> Review list) \<Rightarrow> HTTPBasicCredentials \<Rightarrow> int \<Rightarrow> store \<Rightarrow> error + BookSummary" where
  "book_summary scan credentials i db =
     (case authenticate_user credentials of
        Inl e \<Rightarrow> Inl e
      | Inr _ \<Rightarrow>
          (case select_reviews scan i db of
             Inl e \<Rightarrow> Inl e
           | Inr rows \<Rightarrow>
               if rows = [] then Inl No_reviews_found
               else
                 (case py_truediv (py_sum (map Review_rating rows)) (int (length rows)) of
                    Inl e \<Rightarrow> Inl e
                  | Inr avg \<Rightarrow>
                      (case str_join '' '' (map Review_review_text rows) of
                         Inl e \<Rightarrow> Inl e
                       | Inr text \<Rightarrow> Inr \<lparr>average_rating = avg, review_summary = text\<rparr>))))"

subsection \<open>Reachable stores\<close>

text \<open>
  The stores the service can be in: the empty store of \<open>init_db\<close>, and whatever a
  writing handler leaves, whoever calls it and whatever it returns.
\<close>

inductive reachable :: "store \<Rightarrow> bool" where
  init: "reachable init_db"
| created_book: "reachable db \<Longrightarrow> reachable (snd (create_book credentials book db))"
| updated_book: "reachable db \<Longrightarrow> reachable (snd (update_book credentials i book db))"
| deleted_book: "reachable db \<Longrightarrow> reachable (snd (delete_book credentials i db))"
| created_review: "reachable db \<Longrightarrow> reachable (snd (create_review credentials i review db))"

definition store_inv :: "store \<Rightarrow> bool" where
  "store_inv db =
     (1 \<le> books_id_seq db \<and>
      distinct (map Book_id (books db)) \<and>
      list_all (\<lambda>b. 1 \<le> Book_id b \<and> Book_id b < books_id_seq db) (books db) \<and>
      list_all (\<lambda>b. int32 (Book_id b)) (books db) \<and>
      list_all (\<lambda>r. Review_book_id r \<in> Book_id ` set (books db)) (reviews db) \<and>
      list_all (\<lambda>r. Review_review_text r \<noteq> None) (reviews db) \<and>
      list_all (\<lambda>r. 1 \<le> Review_rating r \<and> Review_rating r \<le> 5) (reviews db))"

subsection \<open>Sample requests\<close>

definition admin :: HTTPBasicCredentials where
  "admin = \<lparr>username = ''admin'', password = ''password''\<rparr>"

definition intruder :: HTTPBasicCredentials where
  "intruder = \<lparr>username = ''admin'', password = ''letmein''\<rparr>"

definition nul_password :: HTTPBasicCredentials where
  "nul_password = \<lparr>username = ''admin'', password = [CHR ''p'', NUL]\<rparr>"

definition dune :: BookCreate where
  "dune = \<lparr>title = ''Dune'', author = ''Herbert'', genre = Some ''SF'',
           year_published = Some 1965, summary = None\<rparr>"

definition emma :: BookCreate where
  "emma = \<lparr>title = ''Emma'', author = ''Austen'', genre = None,
           year_published = None, summary = None\<rparr>"


definition great :: ReviewCreate where
  "great = \<lparr>user_id = 7, review_text = ''Great'', rating = 5\<rparr>"

definition slow :: ReviewCreate where
  "slow = \<lparr>user_id = 8, review_text = ''Slow start'', rating = 3\<rparr>"

definition fine :: ReviewCreate where
  "fine = \<lparr>user_id = 9, review_text = ''Fine'', rating = 4\<rparr>"

definition plain :: ReviewCreate where
  "plain = \<lparr>user_id = 9, review_text = ''Plain'', rating = 3\<rparr>"

definition zero_stars :: ReviewCreate where
  "zero_stars = \<lparr>user_id = 9, review_text = ''Bad'', rating = 0\<rparr>"

definition huge_stars :: ReviewCreate where
  "huge_stars = \<lparr>user_id = 9, review_text = ''Wow'', rating = 2147483648\<rparr>"

definition db1 :: store where
  "db1 = snd (create_book admin dune init_db)"

definition db2 :: store where
  "db2 = snd (create_review admin 1 great db1)"

definition db3 :: store where
  "db3 = snd (create_review admin 1 slow db2)"

definition db4 :: store where
  "db4 = snd (create_book admin emma db3)"



text \<open>Two books, the first of them rewritten by an update.\<close>

definition db7 :: store where
  "db7 = snd (update_book admin 1 emma db4)"

text \<open>
  Two books with a review each; the first book is deleted, and its review with it, and
  the second book gets another review.
\<close>

definition db8 :: store where
  "db8 = snd (create_review admin 2 fine
           (snd (delete_book admin 1
             (snd (create_review admin 2 slow
               (snd (create_review admin 1 great
                 (snd (create_book admin emma db1)))))))))"

section \<open>Properties\<close>

subsection \<open>Authentication and lookups\<close>

lemma is_ascii_admin: "is_ascii ''admin''"
  by (simp add: is_ascii_def)

lemma authenticate_user_cases:
  "authenticate_user c =
     (if \<not> is_ascii (username c) then Inl TypeError
      else if 4096 < length (password c) \<or> NUL \<in> set (password c) then Inl PasswordValueError
      else if username c = ''admin'' \<and> password c = ''password'' then Inr True
      else Inl Unauthorized)"
  by (simp add: authenticate_user_def compare_digest_def get_password_hash_def is_ascii_admin)

lemma authenticate_user_Inl: "authenticate_user c = Inl e \<Longrightarrow> e = authentication_error c"
  by (auto simp: authenticate_user_cases authentication_error_def split: if_splits)

lemma authenticate_user_wrong:
  "(username c, password c) \<noteq> (''admin'', ''password'')
     \<Longrightarrow> authenticate_user c = Inl (authentication_error c)"
  by (auto simp: authenticate_user_cases authentication_error_def)

lemma authenticate_user_right:
  "username c = ''admin'' \<Longrightarrow> password c = ''password'' \<Longrightarrow> authenticate_user c = Inr True"
  by (simp add: authenticate_user_cases NUL_def is_ascii_admin)

lemma filter_key_distinct:
  "distinct (map f xs) \<Longrightarrow> x \<in> set xs \<Longrightarrow> filter (\<lambda>y. f y = f x) xs = [x]"
proof (induction xs)
  case Nil
  then show ?case by simp
next
  case (Cons a xs)
  show ?case
  proof (cases "a = x")
    case True
    with Cons.prems have "\<forall>y\<in>set xs. f y \<noteq> f x" by (auto simp: image_iff)
    then have "filter (\<lambda>y. f y = f x) xs = []" by (simp add: filter_empty_conv)
    with True show ?thesis by simp
  next
    case False
    with Cons.prems have "x \<in> set xs" "f a \<noteq> f x" by (auto simp: image_iff)
    with Cons show ?thesis by simp
  qed
qed

lemma select_book_out_of_range: "\<not> int32 i \<Longrightarrow> select_book i db = Inl DBAPIError"
  by (simp add: select_book_def)

lemma select_book_absent:
  "int32 i \<Longrightarrow> i \<notin> Book_id ` set (books db) \<Longrightarrow> select_book i db = Inr None"
proof -
  assume r: "int32 i" and "i \<notin> Book_id ` set (books db)"
  then have "filter (\<lambda>b. Book_id b = i) (books db) = []"
    by (auto simp: filter_empty_conv)
  with r show ?thesis by (simp add: select_book_def scalar_one_or_none_def)
qed

lemma store_inv_int32:
  "store_inv db \<Longrightarrow> i \<in> Book_id ` set (books db) \<Longrightarrow> int32 i"
  by (auto simp: store_inv_def list_all_iff)

lemma select_book_present:
  assumes "store_inv db" "b \<in> set (books db)"
  shows "select_book (Book_id b) db = Inr (Some b)"
proof -
  from assms have "filter (\<lambda>y. Book_id y = Book_id b) (books db) = [b]"
    by (intro filter_key_distinct) (simp_all add: store_inv_def)
  moreover from assms have "int32 (Book_id b)" by (simp add: store_inv_def list_all_iff)
  ultimately show ?thesis by (simp add: select_book_def scalar_one_or_none_def)
qed

subsection \<open>The invariant of the reachable stores\<close>

lemma store_inv_init: "store_inv init_db"
  by (simp add: store_inv_def init_db_def)

lemma store_inv_insert_book: "store_inv db \<Longrightarrow> store_inv (snd (insert_book book db))"
  by (auto simp: store_inv_def insert_book_def Let_def list_all_iff int32_def)

lemma Book_id_setattrs: "Book_id (setattrs b book) = Book_id b"
  by (simp add: setattrs_def)

lemma update_row_ids:
  "map Book_id (books (update_row i book db)) = map Book_id (books db)"
  by (simp add: update_row_def Book_id_setattrs comp_def)

lemma update_row_same:
  "reviews (update_row i book db) = reviews db"
  "books_id_seq (update_row i book db) = books_id_seq db"
  "reviews_id_seq (update_row i book db) = reviews_id_seq db"
  by (simp_all add: update_row_def)

lemma store_inv_update_row: "store_inv db \<Longrightarrow> store_inv (update_row i book db)"
proof -
  assume a: "store_inv db"
  let ?db = "update_row i book db"
  have ids: "map Book_id (books ?db) = map Book_id (books db)"
    by (rule update_row_ids)
  then have img: "Book_id ` set (books ?db) = Book_id ` set (books db)"
    by (metis list.set_map)
  have "distinct (map Book_id (books ?db))"
    using a ids by (simp add: store_inv_def)
  moreover have "list_all (\<lambda>b. 1 \<le> Book_id b \<and> Book_id b < books_id_seq ?db) (books ?db)"
  proof -
    have "\<forall>k \<in> set (map Book_id (books ?db)). 1 \<le> k \<and> k < books_id_seq db"
      using a unfolding ids by (simp add: store_inv_def list_all_iff)
    then show ?thesis by (simp add: list_all_iff update_row_same)
  qed
  moreover have "list_all (\<lambda>b. int32 (Book_id b)) (books ?db)"
  proof -
    have "\<forall>k \<in> set (map Book_id (books ?db)). int32 k"
      using a unfolding ids by (simp add: store_inv_def list_all_iff)
    then show ?thesis by (simp add: list_all_iff)
  qed
  ultimately show ?thesis
    using a img by (simp add: store_inv_def update_row_same)
qed

lemma store_inv_commit_update:
  "store_inv db \<Longrightarrow> store_inv (snd (commit_update b book db))"
  by (simp add: commit_update_def store_inv_update_row)

lemma store_inv_delete_row: "store_inv db \<Longrightarrow> store_inv (delete_row i db)"
  by (auto simp: store_inv_def delete_row_def list_all_iff distinct_map_filter)

lemma store_inv_insert_review: "store_inv db \<Longrightarrow> store_inv (snd (insert_review i review db))"
  by (auto simp: store_inv_def insert_review_def Let_def list_all_iff)

lemma reachable_store_inv: "reachable db \<Longrightarrow> store_inv db"
proof (induction rule: reachable.induct)
  case init
  show ?case by (rule store_inv_init)
next
  case (created_book db credentials book)
  then show ?case
    using store_inv_insert_book [of db book]
    by (auto simp: create_book_def split: sum.splits)
next
  case (updated_book db credentials i book)
  then show ?case
    using store_inv_commit_update [of db _ book]
    by (auto simp: update_book_def split: sum.splits option.splits)
next
  case (deleted_book db credentials i)
  then show ?case
    by (auto simp: delete_book_def store_inv_delete_row split: sum.splits option.splits)
next
  case (created_review db credentials i review)
  then show ?case
    using store_inv_insert_review [of db i review]
    by (auto simp: create_review_def split: sum.splits option.splits)
qed

subsection \<open>Authentication failure\<close>

text \<open>
  Claim C7, as the code has it. Every handler calls \<open>authenticate_user\<close> first. With
  any identity/secret pair other than the configured one, each of the eight handlers
  fails there; the four that write return the store they were given, and the four that
  read never look at it. The failure is the 401 \<open>Unauthorized\<close> error, except for a
  password that is longer than 4096 characters or contains a NUL character, where it is
  the error passlib raises (and for a user name that is not ASCII, which no request
  brings, where it is the error of \<open>compare_digest\<close>).
\<close>

theorem unauthorized_before_store:
  assumes "(username c, password c) \<noteq> (''admin'', ''password'')"
  shows "authentication_error c
           = (if \<not> is_ascii (username c) then TypeError
              else if 4096 < length (password c) \<or> NUL \<in> set (password c)
              then PasswordValueError else Unauthorized)
       \<and> authenticate_user c = Inl (authentication_error c)
       \<and> create_book c book db = (Inl (authentication_error c), db)
       \<and> read_books scan_b c skip limit db = Inl (authentication_error c)
       \<and> read_book c i db = Inl (authentication_error c)
       \<and> update_book c i book db = (Inl (authentication_error c), db)
       \<and> delete_book c i db = (Inl (authentication_error c), db)
       \<and> create_review c i review db = (Inl (authentication_error c), db)
       \<and> read_reviews scan_r c i db = Inl (authentication_error c)
       \<and> book_summary scan_r c i db = Inl (authentication_error c)"
proof -
  from assms have "authenticate_user c = Inl (authentication_error c)"
    by (rule authenticate_user_wrong)
  then show ?thesis
    by (simp add: create_book_def read_books_def read_book_def update_book_def delete_book_def
        create_review_def read_reviews_def book_summary_def authentication_error_def)
qed

theorem unauthorized_before_store_witness:
  "(username intruder, password intruder) \<noteq> (''admin'', ''password'')
   \<and> create_book intruder dune init_db = (Inl Unauthorized, init_db)
   \<and> read_books rev intruder None None init_db = Inl Unauthorized
   \<and> delete_book intruder 1 init_db = (Inl Unauthorized, init_db)
   \<and> create_review intruder 1 great init_db = (Inl Unauthorized, init_db)
   \<and> book_summary rev intruder 1 init_db = Inl Unauthorized"
proof -
  have h: "(username intruder, password intruder) \<noteq> (''admin'', ''password'')"
    by (simp add: intruder_def)
  have e: "authentication_error intruder = Unauthorized"
    by (simp add: authentication_error_def intruder_def NUL_def is_ascii_admin)
  show ?thesis
    using h unauthorized_before_store [OF h, of dune init_db rev None None 1 great rev]
    by (simp add: e)
qed

theorem nul_password_counterexample:
  "(username nul_password, password nul_password) \<noteq> (''admin'', ''password'')
   \<and> authenticate_user nul_password = Inl PasswordValueError
   \<and> PasswordValueError \<noteq> Unauthorized
   \<and> create_book nul_password dune init_db = (Inl PasswordValueError, init_db)
   \<and> read_book nul_password 1 init_db = Inl PasswordValueError"
  by (simp add: nul_password_def authenticate_user_cases Unauthorized_def create_book_def
      read_book_def is_ascii_admin)

subsection \<open>The sample stores\<close>

lemma authenticate_admin: "authenticate_user admin = Inr True"
  by (rule authenticate_user_right) (simp_all add: admin_def)

lemma storable_samples:
  "BookCreate_storable dune" "BookCreate_storable emma"
  "ReviewCreate_storable great" "ReviewCreate_storable slow" "ReviewCreate_storable fine"
  "ReviewCreate_storable zero_stars" "ReviewCreate_storable plain"
  by (simp_all add: BookCreate_storable_def ReviewCreate_storable_def text_ok_def int32_def
      NUL_def dune_def emma_def great_def slow_def fine_def zero_stars_def plain_def)

lemma db1_eq:
  "db1 = \<lparr>books = [\<lparr>Book_id = 1, Book_title = ''Dune'', Book_author = ''Herbert'',
                     Book_genre = Some ''SF'', Book_year_published = Some 1965,
                     Book_summary = None\<rparr>],
          reviews = [], books_id_seq = 2, reviews_id_seq = 1\<rparr>"
  using storable_samples(1)
  by (simp add: db1_def create_book_def authenticate_admin insert_book_def init_db_def Let_def)
    (simp add: dune_def)

lemma int32_1: "int32 1"
  by (simp add: int32_def)

lemma db2_eq:
  "db2 = \<lparr>books = [\<lparr>Book_id = 1, Book_title = ''Dune'', Book_author = ''Herbert'',
                     Book_genre = Some ''SF'', Book_year_published = Some 1965,
                     Book_summary = None\<rparr>],
          reviews = [\<lparr>Review_id = 1, Review_book_id = 1, Review_user_id = 7,
                       Review_review_text = Some ''Great'', Review_rating = 5\<rparr>],
          books_id_seq = 2, reviews_id_seq = 2\<rparr>"
  using storable_samples(3)
  by (simp add: db2_def db1_eq create_review_def authenticate_admin select_book_def int32_1
      scalar_one_or_none_def insert_review_def Let_def)
    (simp add: great_def)

lemma db3_eq:
  "db3 = \<lparr>books = [\<lparr>Book_id = 1, Book_title = ''Dune'', Book_author = ''Herbert'',
                     Book_genre = Some ''SF'', Book_year_published = Some 1965,
                     Book_summary = None\<rparr>],
          reviews = [\<lparr>Review_id = 1, Review_book_id = 1, Review_user_id = 7,
                       Review_review_text = Some ''Great'', Review_rating = 5\<rparr>,
                     \<lparr>Review_id = 2, Review_book_id = 1, Review_user_id = 8,
                       Review_review_text = Some ''Slow start'', Review_rating = 3\<rparr>],
          books_id_seq = 2, reviews_id_seq = 3\<rparr>"
  using storable_samples(4)
  by (simp add: db3_def db2_eq create_review_def authenticate_admin select_book_def int32_1
      scalar_one_or_none_def insert_review_def Let_def)
    (simp add: slow_def)



lemma reachable_db1: "reachable db1"
  unfolding db1_def by (intro reachable.intros)

lemma reachable_db3: "reachable db3"
  unfolding db3_def db2_def by (intro reachable.intros reachable_db1)



lemma engine_order_rev: "engine_order rev"
  by (simp add: engine_order_def)

lemma engine_order_id: "engine_order (\<lambda>rows. rows)"
  by (simp add: engine_order_def)

subsection \<open>Referential integrity and cascading delete\<close>

lemma reachable_no_orphan:
  "reachable db \<Longrightarrow> r \<in> set (reviews db) \<Longrightarrow> \<exists>b\<in>set (books db). Book_id b = Review_book_id r"
proof -
  assume "reachable db" and r: "r \<in> set (reviews db)"
  then have "store_inv db" by (simp add: reachable_store_inv)
  then have "\<forall>r\<in>set (reviews db). Review_book_id r \<in> Book_id ` set (books db)"
    by (simp add: store_inv_def list_all_iff)
  with r have "Review_book_id r \<in> Book_id ` set (books db)" by blast
  then show ?thesis by (auto simp: image_iff)
qed

lemma select_reviews_empty:
  assumes "int32 i" "engine_order scan" "\<forall>r\<in>set (reviews db). Review_book_id r \<noteq> i"
  shows "select_reviews scan i db = Inr []"
proof -
  from assms(2) have "set (scan (reviews db)) = set (reviews db)"
    by (metis engine_order_def mset_eq_setD)
  with assms(1,3) show ?thesis
    by (simp add: select_reviews_def filter_empty_conv)
qed

text \<open>
  Claim C1. Deleting a book that exists removes the book and every review that
  references it in a single step of the store: the number of reviews drops by the number
  that referenced the book, listing the reviews of that id afterwards gives the empty
  list, reading the book gives the 404 error, and in every reachable store each review
  references a book that is in the store.
\<close>

theorem delete_book_cascade:
  assumes "reachable db" and "authenticate_user c = Inr True" and "engine_order scan"
    and "i \<in> Book_id ` set (books db)"
    and "delete_book c i db = (res, db')"
  shows "res = Inr ''Book deleted''
       \<and> books db' = filter (\<lambda>b. Book_id b \<noteq> i) (books db)
       \<and> reviews db' = filter (\<lambda>r. Review_book_id r \<noteq> i) (reviews db)
       \<and> length (reviews db') + length (filter (\<lambda>r. Review_book_id r = i) (reviews db))
           = length (reviews db)
       \<and> read_reviews scan c i db' = Inr []
       \<and> read_book c i db' = Inl Book_not_found
       \<and> reachable db'
       \<and> (\<forall>t. reachable t \<longrightarrow>
             (\<forall>r\<in>set (reviews t). \<exists>b\<in>set (books t). Book_id b = Review_book_id r))"
proof -
  from assms(4) obtain b where b: "b \<in> set (books db)" "Book_id b = i" by auto
  have inv: "store_inv db" using assms(1) by (rule reachable_store_inv)
  have rng: "int32 i" using inv assms(4) by (rule store_inv_int32)
  from select_book_present [OF inv b(1)] b(2)
  have sel: "select_book i db = Inr (Some b)" by simp
  from assms(5) sel b(2) have res: "res = Inr ''Book deleted''" and db': "db' = delete_row i db"
    by (simp_all add: delete_book_def assms(2))
  have bs: "books db' = filter (\<lambda>b. Book_id b \<noteq> i) (books db)"
    and rs: "reviews db' = filter (\<lambda>r. Review_book_id r \<noteq> i) (reviews db)"
    by (simp_all add: db' delete_row_def)
  have len: "length (reviews db') + length (filter (\<lambda>r. Review_book_id r = i) (reviews db))
           = length (reviews db)"
    using sum_length_filter_compl [of "\<lambda>r. Review_book_id r = i" "reviews db"]
    by (simp add: rs)
  have "\<forall>r\<in>set (reviews db'). Review_book_id r \<noteq> i" by (simp add: rs)
  then have "select_reviews scan i db' = Inr []"
    by (rule select_reviews_empty [OF rng assms(3)])
  then have rr: "read_reviews scan c i db' = Inr []"
    by (simp add: read_reviews_def assms(2))
  have "i \<notin> Book_id ` set (books db')" by (auto simp: bs)
  then have "select_book i db' = Inr None" by (rule select_book_absent [OF rng])
  then have rb: "read_book c i db' = Inl Book_not_found"
    by (simp add: read_book_def assms(2))
  have "reachable (snd (delete_book c i db))" using assms(1) by (rule reachable.deleted_book)
  then have re: "reachable db'" by (simp add: assms(5))
  show ?thesis
    using res bs rs len rr rb re reachable_no_orphan by blast
qed

theorem delete_book_cascade_witness:
  "reachable db3 \<and> authenticate_user admin = Inr True \<and> engine_order (rev :: Review list \<Rightarrow> Review list)
   \<and> 1 \<in> Book_id ` set (books db3)
   \<and> length (filter (\<lambda>r. Review_book_id r = 1) (reviews db3)) = 2
   \<and> delete_book admin 1 db3 = (Inr ''Book deleted'', init_db\<lparr>books_id_seq := 2, reviews_id_seq := 3\<rparr>)
   \<and> read_reviews rev admin 1 (init_db\<lparr>books_id_seq := 2, reviews_id_seq := 3\<rparr>) = Inr []
   \<and> read_book admin 1 (init_db\<lparr>books_id_seq := 2, reviews_id_seq := 3\<rparr>) = Inl Book_not_found"
proof -
  have d: "delete_book admin 1 db3 = (Inr ''Book deleted'', init_db\<lparr>books_id_seq := 2, reviews_id_seq := 3\<rparr>)"
    by (simp add: delete_book_def authenticate_admin db3_eq select_book_def int32_1
        scalar_one_or_none_def delete_row_def init_db_def)
  have m: "1 \<in> Book_id ` set (books db3)" by (simp add: db3_eq)
  have n: "length (filter (\<lambda>r. Review_book_id r = 1) (reviews db3)) = 2" by (simp add: db3_eq)
  show ?thesis
    using delete_book_cascade [OF reachable_db3 authenticate_admin engine_order_rev m d]
      reachable_db3 authenticate_admin engine_order_rev m n d
    by simp
qed

subsection \<open>Rounding to a double\<close>

lemma round_half_even_close: "\<bar>of_int (round_half_even x) - x\<bar> \<le> 1 / 2"
proof -
  have "of_int \<lfloor>x\<rfloor> \<le> x" "x < of_int \<lfloor>x\<rfloor> + 1" by linarith+
  then show ?thesis
    by (auto simp: round_half_even_def Let_def abs_le_iff)
qed

lemma round_half_even_mono_int: "x \<le> of_int k \<Longrightarrow> round_half_even x \<le> k"
proof -
  assume a: "x \<le> of_int k"
  have fl: "of_int \<lfloor>x\<rfloor> \<le> x" "x < of_int \<lfloor>x\<rfloor> + 1" by linarith+
  from a have le: "\<lfloor>x\<rfloor> \<le> k" by (simp add: floor_le_iff)
  show ?thesis
  proof (cases "\<lfloor>x\<rfloor> = k")
    case True
    with a fl have "x = of_int \<lfloor>x\<rfloor>" by simp
    then have "x - of_int \<lfloor>x\<rfloor> = 0" by simp
    then show ?thesis using True by (simp add: round_half_even_def Let_def)
  next
    case False
    with le have "\<lfloor>x\<rfloor> + 1 \<le> k" by simp
    then show ?thesis by (auto simp: round_half_even_def Let_def)
  qed
qed

lemma round_half_even_exact: "round_half_even (of_int k) = k"
  by (simp add: round_half_even_def)

lemma bitlen_powi:
  assumes "0 < x"
  shows "(2 :: rat) powi (bitlen x - 1) \<le> of_int x" and "of_int x < (2 :: rat) powi bitlen x"
proof -
  from bitlen_bounds [OF assms]
  have lo: "2 ^ nat (bitlen x - 1) \<le> x" and hi: "x < 2 ^ nat (bitlen x)" by simp_all
  have b1: "1 \<le> bitlen x"
    using assms bitlen_eq_zero_iff [of x] bitlen_nonneg [of x] by linarith
  have "(of_int (2 ^ nat (bitlen x - 1)) :: rat) \<le> of_int x"
    using lo by (simp only: of_int_le_iff)
  then show "(2 :: rat) powi (bitlen x - 1) \<le> of_int x"
    using b1 by (simp add: power_int_def)
  have "(of_int x :: rat) < of_int (2 ^ nat (bitlen x))"
    using hi by (simp only: of_int_less_iff)
  then show "of_int x < (2 :: rat) powi bitlen x"
    using b1 by (simp add: power_int_def)
qed

lemma floor_log2_bounds:
  assumes "0 < n" "0 < d"
  shows "(2 :: rat) powi floor_log2 n d \<le> of_int n / of_int d"
    and "of_int n / of_int d < (2 :: rat) powi (floor_log2 n d + 1)"
proof -
  let ?q = "of_int n / of_int d :: rat"
  let ?k = "bitlen n - bitlen d"
  have dpos: "(0 :: rat) < of_int d" using assms(2) by simp
  have up: "?q < 2 powi (?k + 1)"
  proof -
    have "of_int n < (2 :: rat) powi bitlen n" using assms(1) by (rule bitlen_powi)
    also have "\<dots> = 2 powi (?k + 1) * 2 powi (bitlen d - 1)"
      by (simp flip: power_int_add)
    also have "\<dots> \<le> 2 powi (?k + 1) * of_int d"
      using bitlen_powi(1) [OF assms(2)] by (intro mult_left_mono) simp_all
    finally show ?thesis using dpos by (simp add: pos_divide_less_eq)
  qed
  have low: "2 powi (?k - 1) < ?q"
  proof -
    have "(2 :: rat) powi (?k - 1) * of_int d < 2 powi (?k - 1) * 2 powi bitlen d"
      using bitlen_powi(2) [OF assms(2)] by (intro mult_strict_left_mono) simp_all
    also have "\<dots> = 2 powi (bitlen n - 1)"
      by (simp flip: power_int_add)
    also have "\<dots> \<le> of_int n" using assms(1) by (rule bitlen_powi)
    finally show ?thesis using dpos by (simp add: pos_less_divide_eq)
  qed
  show "(2 :: rat) powi floor_log2 n d \<le> ?q"
    using low by (simp add: floor_log2_def Let_def)
  show "?q < (2 :: rat) powi (floor_log2 n d + 1)"
    using up by (auto simp: floor_log2_def Let_def not_le)
qed

lemma floor_log2_between:
  assumes "0 < n" "0 < d"
    and "(2 :: rat) powi a \<le> of_int n / of_int d" and "of_int n / of_int d < (2 :: rat) powi b"
  shows "a \<le> floor_log2 n d" and "floor_log2 n d < b"
proof -
  let ?e = "floor_log2 n d"
  note fb = floor_log2_bounds [OF assms(1,2)]
  show "a \<le> ?e"
  proof (rule ccontr)
    assume "\<not> a \<le> ?e"
    then have "?e + 1 \<le> a" by simp
    then have "(2 :: rat) powi (?e + 1) \<le> 2 powi a" by (intro power_int_increasing) simp_all
    with fb(2) assms(3) show False by simp
  qed
  show "?e < b"
  proof (rule ccontr)
    assume "\<not> ?e < b"
    then have "b \<le> ?e" by simp
    then have "(2 :: rat) powi b \<le> 2 powi ?e" by (intro power_int_increasing) simp_all
    with fb(1) assms(4) show False by simp
  qed
qed

text \<open>
  In the range of the normal doubles the quotient comes back rounded with a relative
  error of at most \<open>2 ^ - 53\<close>, and unchanged when it is a double itself.
\<close>

lemma double_of_ratio_normal:
  assumes "0 < n" "0 < d"
    and "- 1022 \<le> floor_log2 n d" and "floor_log2 n d \<le> 1022"
  shows "\<exists>v. double_of_ratio n d = Inr v
           \<and> \<bar>v - of_int n / of_int d\<bar> \<le> (of_int n / of_int d) / 2 ^ 53
           \<and> v = of_int (round_half_even (of_int n / of_int d / 2 powi (floor_log2 n d - 52)))
                 * 2 powi (floor_log2 n d - 52)"
proof -
  let ?q = "of_int n / of_int d :: rat"
  let ?e = "floor_log2 n d"
  let ?u = "?e - 52"
  let ?x = "?q / 2 powi ?u"
  let ?m = "round_half_even ?x"
  let ?v = "of_int ?m * (2 :: rat) powi ?u"
  note fb = floor_log2_bounds [OF assms(1,2)]
  have u: "max (?e - 52) (- 1074) = ?u" using assms(3) by simp
  have upos: "(0 :: rat) < 2 powi ?u" by simp
  have xq: "?x * 2 powi ?u = ?q" by simp
  have err: "\<bar>?v - ?q\<bar> \<le> ?q / 2 ^ 53"
  proof -
    have "?v - ?q = (of_int ?m - ?x) * 2 powi ?u"
      by (simp add: left_diff_distrib)
    then have "\<bar>?v - ?q\<bar> = \<bar>of_int ?m - ?x\<bar> * \<bar>(2 :: rat) powi ?u\<bar>"
      by (simp only: abs_mult)
    also have "\<dots> = \<bar>of_int ?m - ?x\<bar> * 2 powi ?u"
      using upos by (simp only: abs_of_pos)
    also have "\<dots> \<le> 1 / 2 * 2 powi ?u"
      by (intro mult_right_mono round_half_even_close) simp
    also have "\<dots> = 2 powi ?e / 2 ^ 53"
      by (simp add: power_int_diff)
    also have "\<dots> \<le> ?q / 2 ^ 53"
      using fb(1) by (simp add: divide_right_mono)
    finally show ?thesis .
  qed
  have small: "?v < double_overflow"
  proof -
    have "?x < 2 powi (?e + 1) / 2 powi ?u"
      using fb(2) upos by (intro divide_strict_right_mono)
    also have "\<dots> = of_int (2 ^ 53)"
      by (simp flip: power_int_diff)
    finally have "?m \<le> 2 ^ 53" by (intro round_half_even_mono_int) simp
    then have "(of_int ?m :: rat) \<le> of_int (2 ^ 53)" by (simp only: of_int_le_iff)
    then have "?v \<le> of_int (2 ^ 53) * 2 powi ?u"
      using upos by (intro mult_right_mono) simp_all
    also have "\<dots> = 2 powi (?e + 1)"
      by (simp add: power_int_add power_int_diff)
    also have "\<dots> \<le> 2 powi 1023"
      using assms(4) by (intro power_int_increasing) simp_all
    also have "\<dots> = 2 ^ 1023" by (simp only: power_int_numeral)
    also have "\<dots> < 2 ^ 1024" by (rule power_strict_increasing) simp_all
    finally show ?thesis by (simp only: double_overflow_def)
  qed
  have "double_of_ratio n d = Inr ?v"
    using assms(1) small by (simp add: double_of_ratio_def Let_def u)
  with err show ?thesis by simp
qed

subsection \<open>The summary of a book's reviews\<close>

lemma foldl_add_sum_list: "foldl (+) a xs = a + sum_list (xs :: int list)"
  by (induction xs arbitrary: a) simp_all

lemma py_sum_sum_list: "py_sum xs = sum_list xs"
  by (simp add: py_sum_def foldl_add_sum_list)




lemma select_reviews_mset:
  "engine_order scan \<Longrightarrow> select_reviews scan i db = Inr rows \<Longrightarrow>
     mset rows = mset (filter (\<lambda>r. Review_book_id r = i) (reviews db))"
  by (auto simp: select_reviews_def engine_order_def split: if_splits)


lemma double_of_ratio_no_ZeroDivisionError: "double_of_ratio n d \<noteq> Inl ZeroDivisionError"
  by (simp add: double_of_ratio_def Let_def)

lemma py_truediv_ZeroDivisionError: "py_truediv a b = Inl ZeroDivisionError \<longleftrightarrow> b = 0"
  using double_of_ratio_no_ZeroDivisionError [of "\<bar>a\<bar>" "\<bar>b\<bar>"]
  by (auto simp: py_truediv_def split: sum.splits)

lemma sum_list_bounds:
  "\<forall>x\<in>set xs. lo \<le> x \<and> x \<le> hi \<Longrightarrow>
     lo * int (length xs) \<le> sum_list xs \<and> sum_list xs \<le> hi * int (length xs)"
  by (induction xs) (auto simp: algebra_simps)

text \<open>
  A sum of \<open>n > 0\<close> ratings between 1 and 5, divided by \<open>n\<close>: the division returns, within
  \<open>2 ^ - 53\<close> of the quotient in relative terms, and exactly when the quotient is a whole
  number.
\<close>

lemma py_truediv_mean:
  assumes "0 < n" "n \<le> s" "s \<le> 5 * n"
  shows "\<exists>v. py_truediv s n = Inr v
           \<and> \<bar>v - of_int s / of_int n\<bar> \<le> (of_int s / of_int n) / 2 ^ 53
           \<and> (\<forall>k. s = k * n \<longrightarrow> v = of_int k)"
proof -
  let ?q = "of_int s / of_int n :: rat"
  let ?e = "floor_log2 s n"
  have spos: "0 < s" using assms by simp
  have npos: "(0 :: rat) < of_int n" using assms(1) by simp
  have "of_int n \<le> (of_int s :: rat)" using assms(2) by (simp only: of_int_le_iff)
  then have lo: "(2 :: rat) powi 0 \<le> ?q" using npos by (simp add: pos_le_divide_eq)
  have "(of_int s :: rat) \<le> of_int (5 * n)" using assms(3) by (simp only: of_int_le_iff)
  then have "?q \<le> 5" using npos by (simp add: pos_divide_le_eq)
  then have hi: "?q < (2 :: rat) powi 3" by simp
  from floor_log2_between [OF spos assms(1) lo hi]
  have e: "0 \<le> ?e" "?e < 3" by simp_all
  then have "- 1022 \<le> ?e" "?e \<le> 1022" by simp_all
  from double_of_ratio_normal [OF spos assms(1) this]
  obtain v where v: "double_of_ratio s n = Inr v" "\<bar>v - ?q\<bar> \<le> ?q / 2 ^ 53"
    "v = of_int (round_half_even (?q / 2 powi (?e - 52))) * 2 powi (?e - 52)"
    by blast
  have sg: "sgn s * sgn n = 1" using spos assms(1) by simp
  have abs: "\<bar>s\<bar> = s" "\<bar>n\<bar> = n" using spos assms(1) by simp_all
  have res: "py_truediv s n = Inr v"
    using assms(1) spos v(1) by (simp add: py_truediv_def abs)
  have exact: "v = of_int k" if k: "s = k * n" for k
  proof -
    have q: "?q = of_int k" using npos by (simp add: k)
    have p: "(2 :: rat) powi (52 - ?e) = of_int (2 ^ nat (52 - ?e))"
      using e by (simp add: power_int_def)
    have "?q / 2 powi (?e - 52) = of_int k * 2 powi (52 - ?e)"
      by (simp add: q power_int_diff field_simps)
    also have "\<dots> = of_int (k * 2 ^ nat (52 - ?e))" by (simp add: p)
    finally have "round_half_even (?q / 2 powi (?e - 52)) = k * 2 ^ nat (52 - ?e)"
      by (simp only: round_half_even_exact)
    then have "v = of_int k * (2 powi (52 - ?e) * 2 powi (?e - 52))"
      by (simp add: v(3) p)
    also have "2 powi (52 - ?e) * 2 powi (?e - 52) = (1 :: rat)"
      by (simp flip: power_int_add)
    finally show ?thesis by simp
  qed
  from res v(2) exact show ?thesis by blast
qed

lemma py_truediv_8_2: "py_truediv 8 2 = Inr 4"
  by code_simp


text \<open>
  Claim C10. The summary never fails with a division by zero. Past authentication and
  the query, either the rows selected for the book are none and the handler raises its
  404 before any arithmetic, or the divisor, their number, is positive and the division
  does not raise \<open>ZeroDivisionError\<close>; in a reachable store it returns a number.
\<close>

theorem book_summary_division_guarded:
  "book_summary scan c i db \<noteq> Inl ZeroDivisionError
   \<and> (case authenticate_user c of
         Inl e \<Rightarrow> book_summary scan c i db = Inl e
       | Inr _ \<Rightarrow>
          (case select_reviews scan i db of
             Inl e \<Rightarrow> book_summary scan c i db = Inl e
           | Inr rows \<Rightarrow>
               if rows = [] then book_summary scan c i db = Inl No_reviews_found
               else 0 < int (length rows)
                  \<and> py_truediv (py_sum (map Review_rating rows)) (int (length rows))
                       \<noteq> Inl ZeroDivisionError
                  \<and> (reachable db \<and> engine_order scan \<longrightarrow>
                       (\<exists>v. py_truediv (py_sum (map Review_rating rows)) (int (length rows))
                              = Inr v))))"
proof (cases "authenticate_user c")
  case (Inl e)
  then have "e = authentication_error c" by (rule authenticate_user_Inl)
  with Inl show ?thesis
    by (simp add: book_summary_def authentication_error_def Unauthorized_def)
next
  case auth: (Inr v)
  show ?thesis
  proof (cases "select_reviews scan i db")
    case (Inl e)
    then have "e = DBAPIError" by (simp add: select_reviews_def split: if_splits)
    with auth Inl show ?thesis by (simp add: book_summary_def)
  next
    case sel: (Inr rows)
    show ?thesis
    proof (cases "rows = []")
      case True
      with auth sel show ?thesis by (simp add: book_summary_def No_reviews_found_def)
    next
      case False
      let ?s = "py_sum (map Review_rating rows)"
      let ?n = "int (length rows)"
      from False have pos: "0 < ?n" by simp
      then have d: "py_truediv ?s ?n \<noteq> Inl ZeroDivisionError"
        by (simp add: py_truediv_ZeroDivisionError)
      have ret: "\<exists>v. py_truediv ?s ?n = Inr v" if "reachable db" "engine_order scan"
      proof -
        have inv: "store_inv db" using that(1) by (rule reachable_store_inv)
        have "set rows \<subseteq> set (reviews db)"
          using mset_eq_setD [OF select_reviews_mset [OF that(2) sel]] by auto
        moreover have "\<forall>r\<in>set (reviews db). 1 \<le> Review_rating r \<and> Review_rating r \<le> 5"
          using inv by (simp add: store_inv_def list_all_iff)
        ultimately have "\<forall>x\<in>set (map Review_rating rows). 1 \<le> x \<and> x \<le> 5" by auto
        from sum_list_bounds [OF this]
        have "?n \<le> ?s" "?s \<le> 5 * ?n" by (simp_all add: py_sum_sum_list)
        from py_truediv_mean [OF pos this] show ?thesis by blast
      qed
      have "book_summary scan c i db \<noteq> Inl ZeroDivisionError"
        using auth sel False d
        by (auto simp: book_summary_def str_join_def split: option.splits sum.splits)
      with auth sel False pos d ret show ?thesis by simp
    qed
  qed
qed

theorem book_summary_division_guarded_witness:
  "book_summary rev admin 1 db3 \<noteq> Inl ZeroDivisionError
   \<and> authenticate_user admin = Inr True
   \<and> reachable db3 \<and> engine_order (rev :: Review list \<Rightarrow> Review list)
   \<and> map Review_rating (projr (select_reviews rev 1 db3)) = [3, 5]
   \<and> py_truediv (py_sum [3, 5]) 2 = Inr 4
   \<and> book_summary rev admin 1 init_db = Inl No_reviews_found"
proof -
  have s: "select_reviews rev 1 db3
      = Inr [\<lparr>Review_id = 2, Review_book_id = 1, Review_user_id = 8,
               Review_review_text = Some ''Slow start'', Review_rating = 3\<rparr>,
             \<lparr>Review_id = 1, Review_book_id = 1, Review_user_id = 7,
               Review_review_text = Some ''Great'', Review_rating = 5\<rparr>]"
    by (simp add: select_reviews_def int32_1 db3_eq)
  have e: "select_reviews rev 1 init_db = Inr []"
    by (simp add: select_reviews_def int32_1 init_db_def)
  have p: "py_sum [3, 5] = 8" by (simp add: py_sum_def)
  have a: "book_summary rev admin 1 db3 \<noteq> Inl ZeroDivisionError"
    using book_summary_division_guarded [of rev admin 1 db3] by blast
  have b: "book_summary rev admin 1 init_db = Inl No_reviews_found"
    using book_summary_division_guarded [of rev admin 1 init_db]
    by (simp add: authenticate_admin e)
  show ?thesis
    using a b authenticate_admin reachable_db3 engine_order_rev
    by (simp add: s p py_truediv_8_2)
qed




subsection \<open>Creating, reading and replacing a book\<close>











subsection \<open>Creating a review\<close>

lemma insert_review_rejects:
  "\<not> (1 \<le> rating review \<and> rating review \<le> 5) \<Longrightarrow>
     fst (insert_review i review db)
       = Inl (if \<not> (int32 i \<and> ReviewCreate_storable review) then DBAPIError
              else if 2147483647 < reviews_id_seq db then DBAPIError else IntegrityError)
     \<and> books (snd (insert_review i review db)) = books db
     \<and> reviews (snd (insert_review i review db)) = reviews db"
  by (simp add: insert_review_def Let_def)

text \<open>
  Claim C2, as the code has it. A call of \<open>create_review\<close> with a rating outside 1..5
  always fails and leaves both tables as they were. Pydantic accepts the payload, since
  \<open>rating\<close> is declared a plain integer. In a reachable store the failure is that of the
  authentication when the credentials are wrong, the store's refusal of an id outside
  the 32-bit range, the 404 error when no book has the id, the store's refusal of a
  \<open>user_id\<close> or \<open>rating\<close> outside the 32-bit range, of a text with NUL or of an insert
  past the end of the id sequence, and otherwise the rejection of the row by the check
  constraint.
\<close>

theorem create_review_rating_out_of_range:
  assumes "rating review < 1 \<or> 5 < rating review"
    and "create_review c i review db = (res, db')"
  shows "(\<exists>e. res = Inl e) \<and> books db' = books db \<and> reviews db' = reviews db
       \<and> ReviewCreate_validate \<lparr>payload_user_id = Some (user_id review),
              payload_review_text = Some (review_text review),
              payload_rating = Some (rating review)\<rparr> = Inr review
       \<and> (reachable db \<longrightarrow>
            res = Inl (case authenticate_user c of
                         Inl e \<Rightarrow> e
                       | Inr _ \<Rightarrow>
                           if \<not> int32 i then DBAPIError
                           else if i \<notin> Book_id ` set (books db) then Book_not_found
                           else if \<not> ReviewCreate_storable review then DBAPIError
                           else if 2147483647 < reviews_id_seq db then DBAPIError
                           else IntegrityError))"
proof -
  from assms(1) have bad: "\<not> (1 \<le> rating review \<and> rating review \<le> 5)" by auto
  note rej = insert_review_rejects [OF bad, of i db]
  have fail: "(\<exists>e. res = Inl e) \<and> books db' = books db \<and> reviews db' = reviews db"
  proof (cases "authenticate_user c")
    case (Inl e)
    with assms(2) show ?thesis by (auto simp: create_review_def)
  next
    case (Inr v)
    show ?thesis
    proof (cases "select_book i db")
      case (Inl e)
      with Inr assms(2) show ?thesis by (auto simp: create_review_def)
    next
      case sel: (Inr found)
      show ?thesis
      proof (cases found)
        case None
        with Inr sel assms(2) show ?thesis by (auto simp: create_review_def)
      next
        case (Some book)
        with Inr sel assms(2) have "insert_review i review db = (res, db')"
          by (simp add: create_review_def)
        with rej show ?thesis by simp
      qed
    qed
  qed
  have val: "ReviewCreate_validate \<lparr>payload_user_id = Some (user_id review),
              payload_review_text = Some (review_text review),
              payload_rating = Some (rating review)\<rparr> = Inr review"
    by (simp add: ReviewCreate_validate_def)
  have kind: "res = Inl (case authenticate_user c of
                         Inl e \<Rightarrow> e
                       | Inr _ \<Rightarrow>
                           if \<not> int32 i then DBAPIError
                           else if i \<notin> Book_id ` set (books db) then Book_not_found
                           else if \<not> ReviewCreate_storable review then DBAPIError
                           else if 2147483647 < reviews_id_seq db then DBAPIError
                           else IntegrityError)" if re: "reachable db"
  proof (cases "authenticate_user c")
    case (Inl e)
    with assms(2) show ?thesis by (simp add: create_review_def)
  next
    case auth: (Inr v)
    show ?thesis
    proof (cases "int32 i")
      case False
      then have "select_book i db = Inl DBAPIError" by (rule select_book_out_of_range)
      with auth False assms(2) show ?thesis by (simp add: create_review_def)
    next
      case rng: True
      show ?thesis
      proof (cases "i \<in> Book_id ` set (books db)")
        case False
        then have "select_book i db = Inr None" by (rule select_book_absent [OF rng])
        with auth rng False assms(2) show ?thesis by (simp add: create_review_def)
      next
        case True
        then obtain b where b: "b \<in> set (books db)" "Book_id b = i" by auto
        have "store_inv db" using re by (rule reachable_store_inv)
        from select_book_present [OF this b(1)] b(2)
        have "select_book i db = Inr (Some b)" by simp
        with auth assms(2) have "insert_review i review db = (res, db')"
          by (simp add: create_review_def)
        with rej rng have "res = Inl (if \<not> ReviewCreate_storable review then DBAPIError
              else if 2147483647 < reviews_id_seq db then DBAPIError else IntegrityError)"
          by simp
        with auth rng True show ?thesis by simp
      qed
    qed
  qed
  from fail val kind show ?thesis by blast
qed

theorem create_review_rating_out_of_range_witness:
  "(rating zero_stars < 1 \<or> 5 < rating zero_stars) \<and> reachable db3
   \<and> create_review admin 1 zero_stars db3 = (Inl IntegrityError, db3\<lparr>reviews_id_seq := 4\<rparr>)
   \<and> reviews (db3\<lparr>reviews_id_seq := 4\<rparr>) = reviews db3
   \<and> books (db3\<lparr>reviews_id_seq := 4\<rparr>) = books db3
   \<and> (rating huge_stars < 1 \<or> 5 < rating huge_stars)
   \<and> create_review admin 1 huge_stars db3 = (Inl DBAPIError, db3)"
proof -
  have h2: "rating huge_stars < 1 \<or> 5 < rating huge_stars" by (simp add: huge_stars_def)
  have n2: "\<not> ReviewCreate_storable huge_stars"
    by (simp add: ReviewCreate_storable_def huge_stars_def int32_def)
  have s2: "select_book 1 db3 = Inr (Some (hd (books db3)))"
    by (simp add: select_book_def int32_1 scalar_one_or_none_def db3_eq)
  have d2: "create_review admin 1 huge_stars db3 = (Inl DBAPIError, db3)"
    using n2 by (simp add: create_review_def authenticate_admin s2 insert_review_def Let_def)
  note t2 = create_review_rating_out_of_range [OF h2 d2]
  have h: "rating zero_stars < 1 \<or> 5 < rating zero_stars" by (simp add: zero_stars_def)
  have z: "rating zero_stars = 0" by (simp add: zero_stars_def)
  have d: "create_review admin 1 zero_stars db3 = (Inl IntegrityError, db3\<lparr>reviews_id_seq := 4\<rparr>)"
    using storable_samples(6)
    by (simp add: create_review_def authenticate_admin db3_eq select_book_def int32_1
        scalar_one_or_none_def insert_review_def Let_def z)
  show ?thesis
    using create_review_rating_out_of_range [OF h d] t2 h d h2 d2 reachable_db3 by simp
qed

theorem create_review_missing_book_counterexample:
  "\<not> (1 \<le> rating zero_stars \<and> rating zero_stars \<le> 5)
   \<and> create_review admin 1 zero_stars init_db = (Inl Book_not_found, init_db)
   \<and> Book_not_found \<noteq> ValidationError \<and> Book_not_found \<noteq> IntegrityError"
  by (simp add: create_review_def authenticate_admin init_db_def select_book_def int32_1
      scalar_one_or_none_def zero_stars_def Book_not_found_def)

text \<open>
  Claim C9, as the code has it. \<open>review_text\<close> is required: pydantic accepts a review
  payload exactly when \<open>user_id\<close>, \<open>review_text\<close> and \<open>rating\<close> are all present, and
  rejects every other payload with a validation error.
\<close>

theorem ReviewCreate_requires_review_text:
  "ReviewCreate_validate p =
     (if payload_user_id p \<noteq> None \<and> payload_review_text p \<noteq> None \<and> payload_rating p \<noteq> None
      then Inr \<lparr>user_id = the (payload_user_id p), review_text = the (payload_review_text p),
                rating = the (payload_rating p)\<rparr>
      else Inl ValidationError)"
  by (auto simp: ReviewCreate_validate_def split: option.splits)

theorem ReviewCreate_requires_review_text_witness:
  "ReviewCreate_validate \<lparr>payload_user_id = Some 7, payload_review_text = Some ''Great'',
      payload_rating = Some 5\<rparr> = Inr great"
  using ReviewCreate_requires_review_text
    [of "\<lparr>payload_user_id = Some 7, payload_review_text = Some ''Great'', payload_rating = Some 5\<rparr>"]
  by (simp add: great_def)

theorem review_text_omitted_counterexample:
  "ReviewCreate_validate \<lparr>payload_user_id = Some 7, payload_review_text = None,
      payload_rating = Some 5\<rparr> = Inl ValidationError"
  by (simp add: ReviewCreate_validate_def)

subsection \<open>Listing books and reviews\<close>

lemma int32_2: "int32 2"
  by (simp add: int32_def)

lemma db4_books:
  "books db4 = [\<lparr>Book_id = 1, Book_title = ''Dune'', Book_author = ''Herbert'',
                  Book_genre = Some ''SF'', Book_year_published = Some 1965,
                  Book_summary = None\<rparr>,
                \<lparr>Book_id = 2, Book_title = ''Emma'', Book_author = ''Austen'',
                  Book_genre = None, Book_year_published = None, Book_summary = None\<rparr>]"
  using storable_samples(2)
  by (simp add: db4_def db3_eq create_book_def authenticate_admin insert_book_def Let_def)
    (simp add: emma_def)

lemma reachable_db4: "reachable db4"
  unfolding db4_def by (intro reachable.intros reachable_db3)

lemma db7_books:
  "books db7 = [\<lparr>Book_id = 1, Book_title = ''Emma'', Book_author = ''Austen'',
                  Book_genre = None, Book_year_published = None, Book_summary = None\<rparr>,
                \<lparr>Book_id = 2, Book_title = ''Emma'', Book_author = ''Austen'',
                  Book_genre = None, Book_year_published = None, Book_summary = None\<rparr>]"
proof -
  have s: "select_book 1 db4 = Inr (Some (hd (books db4)))"
    by (simp add: select_book_def int32_1 scalar_one_or_none_def db4_books)
  show ?thesis
    using storable_samples(2)
    by (simp add: db7_def update_book_def authenticate_admin s commit_update_def
        update_row_def setattrs_def db4_books)
      (simp add: emma_def)
qed

lemma reachable_db7: "reachable db7"
  unfolding db7_def by (intro reachable.intros reachable_db4)

lemma db8_reviews:
  "reviews db8 = [\<lparr>Review_id = 2, Review_book_id = 2, Review_user_id = 8,
                     Review_review_text = Some ''Slow start'', Review_rating = 3\<rparr>,
                   \<lparr>Review_id = 3, Review_book_id = 2, Review_user_id = 9,
                     Review_review_text = Some ''Fine'', Review_rating = 4\<rparr>]"
proof -
  let ?dune = "\<lparr>Book_id = 1, Book_title = ''Dune'', Book_author = ''Herbert'',
                  Book_genre = Some ''SF'', Book_year_published = Some 1965,
                  Book_summary = None\<rparr>"
  let ?emma = "\<lparr>Book_id = 2, Book_title = ''Emma'', Book_author = ''Austen'',
                  Book_genre = None, Book_year_published = None, Book_summary = None\<rparr>"
  let ?r1 = "\<lparr>Review_id = 1, Review_book_id = 1, Review_user_id = 7,
                Review_review_text = Some ''Great'', Review_rating = 5\<rparr>"
  let ?r2 = "\<lparr>Review_id = 2, Review_book_id = 2, Review_user_id = 8,
                Review_review_text = Some ''Slow start'', Review_rating = 3\<rparr>"
  let ?r3 = "\<lparr>Review_id = 3, Review_book_id = 2, Review_user_id = 9,
                Review_review_text = Some ''Fine'', Review_rating = 4\<rparr>"
  let ?e2 = "snd (create_book admin emma db1)"
  let ?e3 = "snd (create_review admin 1 great ?e2)"
  let ?e4 = "snd (create_review admin 2 slow ?e3)"
  let ?e5 = "snd (delete_book admin 1 ?e4)"
  have e2: "?e2 = \<lparr>books = [?dune, ?emma], reviews = [], books_id_seq = 3, reviews_id_seq = 1\<rparr>"
    using storable_samples(2)
    by (simp add: db1_eq create_book_def authenticate_admin insert_book_def Let_def)
      (simp add: emma_def)
  have e3: "?e3 = \<lparr>books = [?dune, ?emma], reviews = [?r1], books_id_seq = 3,
                    reviews_id_seq = 2\<rparr>"
    using storable_samples(3)
    by (simp only: e2)
      (simp add: create_review_def authenticate_admin select_book_def int32_1
        scalar_one_or_none_def insert_review_def Let_def, simp add: great_def)
  have e4: "?e4 = \<lparr>books = [?dune, ?emma], reviews = [?r1, ?r2], books_id_seq = 3,
                    reviews_id_seq = 3\<rparr>"
    using storable_samples(4)
    by (simp only: e3)
      (simp add: create_review_def authenticate_admin select_book_def int32_2
        scalar_one_or_none_def insert_review_def Let_def, simp add: slow_def)
  have e5: "?e5 = \<lparr>books = [?emma], reviews = [?r2], books_id_seq = 3, reviews_id_seq = 3\<rparr>"
    by (simp only: e4)
      (simp add: delete_book_def authenticate_admin select_book_def int32_1
        scalar_one_or_none_def delete_row_def)
  have e6: "db8 = \<lparr>books = [?emma], reviews = [?r2, ?r3], books_id_seq = 3,
                    reviews_id_seq = 4\<rparr>"
    unfolding db8_def using storable_samples(5)
    by (simp only: e5)
      (simp add: create_review_def authenticate_admin select_book_def int32_2
        scalar_one_or_none_def insert_review_def Let_def, simp add: fine_def)
  show ?thesis by (simp add: e6)
qed

lemma reachable_db8: "reachable db8"
  unfolding db8_def by (intro reachable.intros reachable_db1)

lemma ids_ascending_insert_book:
  assumes "store_inv db" "sorted_wrt (<) (map Book_id (books db))"
  shows "sorted_wrt (<) (map Book_id (books (snd (insert_book book db))))"
proof -
  from assms(1) have "\<forall>k\<in>set (map Book_id (books db)). k < books_id_seq db"
    by (simp add: store_inv_def list_all_iff)
  with assms(2) show ?thesis
    by (simp add: insert_book_def Let_def sorted_wrt_append)
qed

lemma ids_ascending_delete_row:
  assumes "sorted_wrt (<) (map Book_id (books db))"
  shows "sorted_wrt (<) (map Book_id (books (delete_row i db)))"
proof -
  from assms have "sorted_wrt (\<lambda>x y. Book_id x < Book_id y) (books db)"
    by (simp add: sorted_wrt_map)
  then have "sorted_wrt (\<lambda>x y. Book_id x < Book_id y) (filter (\<lambda>b. Book_id b \<noteq> i) (books db))"
    by (rule sorted_wrt_filter)
  then show ?thesis by (simp add: delete_row_def sorted_wrt_map)
qed

lemma books_insert_review: "books (snd (insert_review i review db)) = books db"
  by (simp add: insert_review_def Let_def)

lemma books_commit_update:
  "map Book_id (books (snd (commit_update b book db))) = map Book_id (books db)"
  by (simp add: commit_update_def update_row_ids)

lemma reachable_ids_ascending: "reachable db \<Longrightarrow> sorted_wrt (<) (map Book_id (books db))"
proof (induction rule: reachable.induct)
  case init
  show ?case by (simp add: init_db_def)
next
  case (created_book db credentials book)
  then have "store_inv db" by (simp add: reachable_store_inv)
  from ids_ascending_insert_book [OF this created_book.IH, of book] created_book.IH
  show ?case by (simp add: create_book_def split: sum.splits)
next
  case (updated_book db credentials i book)
  then show ?case
    by (auto simp: update_book_def books_commit_update split: sum.splits option.splits)
next
  case (deleted_book db credentials i)
  then show ?case
    by (auto simp: delete_book_def ids_ascending_delete_row split: sum.splits option.splits)
next
  case (created_review db credentials i review)
  then show ?case
    by (auto simp: create_review_def books_insert_review split: sum.splits option.splits)
qed

text \<open>
  Claim C6, as the code has it. With the right credentials, \<open>read_books\<close> takes
  \<open>skip = 0\<close> and \<open>limit = 10\<close> when they are not given. The store rejects a \<open>skip\<close> or
  \<open>limit\<close> that is negative or not below \<open>2 ^ 63\<close>; otherwise the result is the rows the
  store yields for the whole table, all the books each once, without the first \<open>skip\<close> and
  cut after \<open>limit\<close>, so \<open>min limit (n - skip)\<close> of \<open>n\<close> books whatever the size of \<open>limit\<close>.
  The query asks for no order: the result is ascending by id when the store yields the
  rows as they were inserted.
\<close>

theorem read_books_window:
  assumes "authenticate_user c = Inr True" and "engine_order scan"
  shows "read_books scan c None None db = read_books scan c (Some 0) (Some 10) db
       \<and> read_books scan c None (Some limit) db = read_books scan c (Some 0) (Some limit) db
       \<and> read_books scan c (Some skip) None db = read_books scan c (Some skip) (Some 10) db
       \<and> (if 0 \<le> skip \<and> skip < 9223372036854775808 \<and> 0 \<le> limit \<and> limit < 9223372036854775808
           then read_books scan c (Some skip) (Some limit) db
                  = Inr (take (nat limit) (drop (nat skip) (scan (books db))))
              \<and> mset (scan (books db)) = mset (books db)
              \<and> length (take (nat limit) (drop (nat skip) (scan (books db))))
                  = min (nat limit) (length (books db) - nat skip)
              \<and> (reachable db \<and> scan (books db) = books db \<longrightarrow>
                   sorted_wrt (<) (map Book_id (take (nat limit) (drop (nat skip) (scan (books db))))))
           else read_books scan c (Some skip) (Some limit) db = Inl DBAPIError)"
proof -
  have defaults: "read_books scan c None None db = read_books scan c (Some 0) (Some 10) db"
    "read_books scan c None (Some limit) db = read_books scan c (Some 0) (Some limit) db"
    "read_books scan c (Some skip) None db = read_books scan c (Some skip) (Some 10) db"
    by (simp_all add: read_books_def)
  have ms: "mset (scan (books db)) = mset (books db)"
    using assms(2) by (simp add: engine_order_def)
  then have len: "length (scan (books db)) = length (books db)"
    by (rule mset_eq_length)
  have asc: "sorted_wrt (<) (map Book_id (take (nat limit) (drop (nat skip) (scan (books db)))))"
    if "reachable db" "scan (books db) = books db"
  proof -
    from that(1) have "sorted_wrt (<) (map Book_id (books db))" by (rule reachable_ids_ascending)
    then have "sorted_wrt (<) (take (nat limit) (drop (nat skip) (map Book_id (books db))))"
      by (intro sorted_wrt_take sorted_wrt_drop)
    then show ?thesis by (simp add: that(2) take_map drop_map)
  qed
  have l2: "length (take (nat limit) (drop (nat skip) (scan (books db))))
              = min (nat limit) (length (books db) - nat skip)"
    by (simp add: len min.commute)
  show ?thesis
  proof (cases "0 \<le> skip \<and> skip < 9223372036854775808 \<and> 0 \<le> limit \<and> limit < 9223372036854775808")
    case False
    then have "skip < 0 \<or> limit < 0 \<or> \<not> int64 skip \<or> \<not> int64 limit"
      by (auto simp: int64_def)
    then have "read_books scan c (Some skip) (Some limit) db = Inl DBAPIError"
      by (simp add: read_books_def assms(1))
    with defaults show ?thesis unfolding if_not_P [OF False] by blast
  next
    case True
    then have "\<not> (skip < 0 \<or> limit < 0 \<or> \<not> int64 skip \<or> \<not> int64 limit)"
      by (auto simp: int64_def)
    then have "read_books scan c (Some skip) (Some limit) db
                  = Inr (take (nat limit) (drop (nat skip) (scan (books db))))"
      by (simp add: read_books_def assms(1))
    with defaults ms l2 asc show ?thesis unfolding if_P [OF True] by blast
  qed
qed

theorem read_books_window_witness:
  "authenticate_user admin = Inr True \<and> engine_order (rev :: Book list \<Rightarrow> Book list)
   \<and> read_books rev admin (Some 1) (Some 1000) db4
       = Inr [\<lparr>Book_id = 1, Book_title = ''Dune'', Book_author = ''Herbert'',
                Book_genre = Some ''SF'', Book_year_published = Some 1965,
                Book_summary = None\<rparr>]
   \<and> read_books rev admin None None init_db = Inr []"
proof -
  have e: "books init_db = []" by (simp add: init_db_def)
  show ?thesis
    using read_books_window [OF authenticate_admin engine_order_rev, of db4 1000 1]
      read_books_window [OF authenticate_admin engine_order_rev, of init_db 10 0]
      authenticate_admin engine_order_rev
    by (simp add: db4_books e)
qed

text \<open>
  After the update of book 1 the store has written the new version of that row behind
  the row of book 2, and yields book 2 first.
\<close>

theorem read_books_order_counterexample:
  "authenticate_user admin = Inr True \<and> engine_order (rev :: Book list \<Rightarrow> Book list)
   \<and> reachable db7
   \<and> read_books rev admin (Some 0) (Some 10) db7
       = Inr [\<lparr>Book_id = 2, Book_title = ''Emma'', Book_author = ''Austen'',
                Book_genre = None, Book_year_published = None, Book_summary = None\<rparr>,
              \<lparr>Book_id = 1, Book_title = ''Emma'', Book_author = ''Austen'',
                Book_genre = None, Book_year_published = None, Book_summary = None\<rparr>]
   \<and> \<not> sorted [2, 1 :: int]
   \<and> read_books (\<lambda>rows. rows) admin (Some (- 1)) (Some 10) db7 = Inl DBAPIError
   \<and> read_books (\<lambda>rows. rows) admin (Some 0) (Some 9223372036854775808) db7 = Inl DBAPIError"
proof -
  have a: "read_books rev admin (Some 0) (Some 10) db7
       = Inr [\<lparr>Book_id = 2, Book_title = ''Emma'', Book_author = ''Austen'',
                Book_genre = None, Book_year_published = None, Book_summary = None\<rparr>,
              \<lparr>Book_id = 1, Book_title = ''Emma'', Book_author = ''Austen'',
                Book_genre = None, Book_year_published = None, Book_summary = None\<rparr>]"
    by (simp add: read_books_def authenticate_admin int64_def db7_books)
  have b: "read_books (\<lambda>rows. rows) admin (Some (- 1)) (Some 10) db7 = Inl DBAPIError"
    "read_books (\<lambda>rows. rows) admin (Some 0) (Some 9223372036854775808) db7 = Inl DBAPIError"
    by (simp_all add: read_books_def authenticate_admin int64_def)
  have c: "\<not> sorted [2, 1 :: int]" by simp
  show ?thesis
    using authenticate_admin engine_order_rev reachable_db7 a b c by (simp only: simp_thms)
qed

text \<open>
  Claim C8, as the code has it. With the right credentials and an id in the 32-bit
  range, \<open>read_reviews\<close> never fails and never looks at the books: it returns the reviews
  whose \<open>book_id\<close> is the given id, each once, in the order the store yields them, which is
  the order of insertion when the store yields the rows as they were inserted. The result
  is the empty list when no review has the id, as is the case in a reachable store when
  no book has the id. The store refuses an id outside the 32-bit range.
\<close>

theorem read_reviews_all_of_book:
  assumes "authenticate_user c = Inr True" and "engine_order scan"
  shows "(if int32 i
          then read_reviews scan c i db
                 = Inr (filter (\<lambda>r. Review_book_id r = i) (scan (reviews db)))
             \<and> mset (filter (\<lambda>r. Review_book_id r = i) (scan (reviews db)))
                 = mset (filter (\<lambda>r. Review_book_id r = i) (reviews db))
             \<and> (filter (\<lambda>r. Review_book_id r = i) (reviews db) = [] \<longrightarrow>
                  read_reviews scan c i db = Inr [])
             \<and> (reachable db \<and> i \<notin> Book_id ` set (books db) \<longrightarrow>
                  read_reviews scan c i db = Inr [])
             \<and> (scan (reviews db) = reviews db \<longrightarrow>
                  read_reviews scan c i db
                    = Inr (filter (\<lambda>r. Review_book_id r = i) (reviews db)))
          else read_reviews scan c i db = Inl DBAPIError)"
proof (cases "int32 i")
  case False
  then show ?thesis by (simp add: read_reviews_def assms(1) select_reviews_def)
next
  case True
  let ?P = "\<lambda>r. Review_book_id r = i"
  have sel: "select_reviews scan i db = Inr (filter ?P (scan (reviews db)))"
    using True by (simp add: select_reviews_def)
  have rr: "read_reviews scan c i db = Inr (filter ?P (scan (reviews db)))"
    by (simp add: read_reviews_def assms(1) sel)
  have ms: "mset (filter ?P (scan (reviews db))) = mset (filter ?P (reviews db))"
    using assms(2) sel by (rule select_reviews_mset)
  have none: "read_reviews scan c i db = Inr []" if "filter ?P (reviews db) = []"
    using ms that by (simp add: rr)
  have missing: "read_reviews scan c i db = Inr []"
    if "reachable db" "i \<notin> Book_id ` set (books db)"
  proof -
    have "\<forall>r\<in>set (reviews db). Review_book_id r \<noteq> i"
      using reachable_no_orphan [OF that(1)] that(2) by (metis image_eqI)
    then have "filter ?P (reviews db) = []" by (simp add: filter_empty_conv)
    then show ?thesis by (rule none)
  qed
  have same: "read_reviews scan c i db = Inr (filter ?P (reviews db))"
    if "scan (reviews db) = reviews db"
    using that by (simp add: rr)
  from True rr ms none missing same show ?thesis by simp
qed

theorem read_reviews_all_of_book_witness:
  "authenticate_user admin = Inr True \<and> engine_order (\<lambda>rows :: Review list. rows)
   \<and> reachable db3 \<and> int32 1 \<and> int32 2
   \<and> read_reviews (\<lambda>rows. rows) admin 1 db3
       = Inr [\<lparr>Review_id = 1, Review_book_id = 1, Review_user_id = 7,
                Review_review_text = Some ''Great'', Review_rating = 5\<rparr>,
              \<lparr>Review_id = 2, Review_book_id = 1, Review_user_id = 8,
                Review_review_text = Some ''Slow start'', Review_rating = 3\<rparr>]
   \<and> read_reviews (\<lambda>rows. rows) admin 2 db3 = Inr []"
proof -
  have m: "(2::int) \<notin> Book_id ` set (books db3)" by (simp add: db3_eq)
  have f: "filter (\<lambda>r. Review_book_id r = 1) (reviews db3)
       = [\<lparr>Review_id = 1, Review_book_id = 1, Review_user_id = 7,
                Review_review_text = Some ''Great'', Review_rating = 5\<rparr>,
              \<lparr>Review_id = 2, Review_book_id = 1, Review_user_id = 8,
                Review_review_text = Some ''Slow start'', Review_rating = 3\<rparr>]"
    by (simp add: db3_eq)
  have one: "read_reviews (\<lambda>rows. rows) admin 1 db3
       = Inr (filter (\<lambda>r. Review_book_id r = 1) (reviews db3))"
    using read_reviews_all_of_book
      [OF authenticate_admin engine_order_id, of 1 db3, unfolded if_P [OF int32_1]]
    by blast
  have two: "read_reviews (\<lambda>rows. rows) admin 2 db3 = Inr []"
    using read_reviews_all_of_book
      [OF authenticate_admin engine_order_id, of 2 db3, unfolded if_P [OF int32_2]]
      reachable_db3 m by blast
  show ?thesis
    using authenticate_admin engine_order_id reachable_db3 int32_1 int32_2 one two
    by (simp only: f simp_thms)
qed

text \<open>
  After the delete, the store that has reclaimed the place of review 1 puts review 3
  there, before review 2, and yields it first.
\<close>

theorem read_reviews_range_and_order_counterexample:
  "authenticate_user admin = Inr True \<and> reachable db8
   \<and> filter (\<lambda>r. Review_book_id r = 2147483648) (reviews db8) = []
   \<and> read_reviews (\<lambda>rows. rows) admin 2147483648 db8 = Inl DBAPIError
   \<and> engine_order (rev :: Review list \<Rightarrow> Review list)
   \<and> map Review_id (reviews db8) = [2, 3]
   \<and> read_reviews rev admin 2 db8
       = Inr [\<lparr>Review_id = 3, Review_book_id = 2, Review_user_id = 9,
                Review_review_text = Some ''Fine'', Review_rating = 4\<rparr>,
              \<lparr>Review_id = 2, Review_book_id = 2, Review_user_id = 8,
                Review_review_text = Some ''Slow start'', Review_rating = 3\<rparr>]"
proof -
  have a: "filter (\<lambda>r. Review_book_id r = 2147483648) (reviews db8) = []"
    "map Review_id (reviews db8) = [2, 3]"
    by (simp_all add: db8_reviews)
  have b: "read_reviews (\<lambda>rows. rows) admin 2147483648 db8 = Inl DBAPIError"
    by (simp add: read_reviews_def authenticate_admin select_reviews_def int32_def)
  have c: "read_reviews rev admin 2 db8
       = Inr [\<lparr>Review_id = 3, Review_book_id = 2, Review_user_id = 9,
                Review_review_text = Some ''Fine'', Review_rating = 4\<rparr>,
              \<lparr>Review_id = 2, Review_book_id = 2, Review_user_id = 8,
                Review_review_text = Some ''Slow start'', Review_rating = 3\<rparr>]"
    by (simp add: read_reviews_def authenticate_admin select_reviews_def int32_2 db8_reviews)
  show ?thesis
    using authenticate_admin reachable_db8 engine_order_rev a b c by (simp only: simp_thms)
qed

end
